theory Spec2Isabelle
  imports Main
begin

section \<open>JavaScript values and call frames as the binding sees them\<close>

text \<open>
  The binding talks to its host through N-API handles. A function value is identified by
  the number of the function object it denotes; an object is the list of its own
  properties in insertion order.
\<close>

datatype js_value =
    JSUndefined
  | JSBoolean bool
  | JSNumber int
  | JSString string
  | JSFunction nat
  | JSObject "(string \<times> js_value) list"

fun IsFunction :: "js_value \<Rightarrow> bool" where
  "IsFunction (JSFunction f) = True"
| "IsFunction v = False"

fun IsString :: "js_value \<Rightarrow> bool" where
  "IsString (JSString s) = True"
| "IsString v = False"

text \<open>\<open>info[0].As<Napi::Function>()\<close>: the function object behind a value.\<close>

fun As_Function :: "js_value \<Rightarrow> nat option" where
  "As_Function (JSFunction f) = Some f"
| "As_Function v = None"

text \<open>
  \<open>Napi::CallbackInfo\<close>: the environment handle (absent for the null environment the
  destructor passes) and the arguments of the call.
\<close>

record CallbackInfo =
  info_env :: "nat option"
  info_args :: "js_value list"

definition Length :: "CallbackInfo \<Rightarrow> nat" where
  "Length info = length (info_args info)"

text \<open>\<open>info[i]\<close>: the argument, or undefined beyond the arguments passed.\<close>

definition arg_at :: "CallbackInfo \<Rightarrow> nat \<Rightarrow> js_value" where
  "arg_at info i = (if i < Length info then info_args info ! i else JSUndefined)"

text \<open>The frame of a call from JavaScript with the given arguments.\<close>

definition js_call :: "js_value list \<Rightarrow> CallbackInfo" where
  "js_call as = \<lparr>info_env = Some 0, info_args = as\<rparr>"

text \<open>\<open>Napi::Object::New\<close> and \<open>Napi::Object::Set\<close> on the property list.\<close>

definition Object_New :: "(string \<times> js_value) list" where
  "Object_New = []"

fun Object_Set :: "(string \<times> js_value) list \<Rightarrow> string \<Rightarrow> js_value \<Rightarrow> (string \<times> js_value) list" where
  "Object_Set [] k v = [(k, v)]"
| "Object_Set ((k', v') # ps) k v =
     (if k' = k then (k, v) # ps else (k', v') # Object_Set ps k v)"

definition String_New :: "string \<Rightarrow> js_value" where
  "String_New s = JSString s"

datatype js_error = TypeError string

section \<open>The clock: \<open>gmtime\<close> and \<open>put_time\<close>\<close>

text \<open>
  The fields of \<open>struct tm\<close> that the format string of the program reads.
\<close>

record tm =
  tm_sec :: int
  tm_min :: int
  tm_hour :: int
  tm_mday :: int
  tm_mon :: int
  tm_year :: int

text \<open>
  The day count since 1970-01-01 as a date of the proleptic Gregorian calendar: year,
  month (1 to 12) and day of the month. The count is shifted to start on a first of
  March, cut into cycles of 400, 100 and 4 years and single years, and the month is read
  off the day of that March-based year.
\<close>

definition civil_from_days :: "int \<Rightarrow> int \<times> int \<times> int" where
  "civil_from_days days =
     (let z = days + 719468;
          n400 = z div 146097;
          r = z mod 146097;
          n100 = min 3 (r div 36524);
          r2 = r - n100 * 36524;
          n4 = r2 div 1461;
          r3 = r2 mod 1461;
          n1 = min 3 (r3 div 365);
          doy = r3 - n1 * 365;
          y = 400 * n400 + 100 * n100 + 4 * n4 + n1;
          mp = (5 * doy + 2) div 153;
          d = doy - (153 * mp + 2) div 5 + 1;
          m = (if mp < 10 then mp + 3 else mp - 9)
      in (if m \<le> 2 then y + 1 else y, m, d))"

text \<open>
  The program is built for Windows only (it includes \<open>windows.h\<close>). The C runtime there
  converts a 64-bit \<open>time_t\<close> from 1970-01-01T00:00:00 up to 3000-12-31T23:59:59 UTC
  and returns a null pointer for any other value; where it converts, the result is the
  date and the time of day of the proleptic Gregorian calendar in UTC.
\<close>

definition MAX_TIME64_T :: int where
  "MAX_TIME64_T = 32535215999"

definition gmtime :: "int \<Rightarrow> tm option" where
  "gmtime t =
     (if t < 0 \<or> MAX_TIME64_T < t then None
      else
        let days = t div 86400;
            rem = t mod 86400
        in case civil_from_days days of
             (y, m, d) \<Rightarrow>
               Some \<lparr>tm_sec = rem mod 60, tm_min = rem mod 3600 div 60, tm_hour = rem div 3600,
                     tm_mday = d, tm_mon = m - 1, tm_year = y - 1900\<rparr>)"

definition digit_char :: "nat \<Rightarrow> char" where
  "digit_char n = ''0123456789'' ! (n mod 10)"

function dec :: "nat \<Rightarrow> string" where
  "dec n = (if n < 10 then [digit_char n] else dec (n div 10) @ [digit_char (n mod 10)])"
  by pat_completeness auto
termination
  by (relation "measure id") auto

declare dec.simps [simp del]

definition dec_int :: "int \<Rightarrow> string" where
  "dec_int i = (if i < 0 then CHR ''-'' # dec (nat (- i)) else dec (nat i))"

text \<open>A number written in at least two digits, filled with a zero.\<close>

definition pad2 :: "int \<Rightarrow> string" where
  "pad2 i = (if 0 \<le> i \<and> i < 10 then CHR ''0'' # dec_int i else dec_int i)"

text \<open>
  The conversion specifiers of \<open>strftime\<close> that the program uses; any other specifier is
  copied as it is written.
\<close>

definition conversion :: "char \<Rightarrow> tm \<Rightarrow> string" where
  "conversion c t =
     (if c = CHR ''Y'' then dec_int (tm_year t + 1900)
      else if c = CHR ''m'' then pad2 (tm_mon t + 1)
      else if c = CHR ''d'' then pad2 (tm_mday t)
      else if c = CHR ''H'' then pad2 (tm_hour t)
      else if c = CHR ''M'' then pad2 (tm_min t)
      else if c = CHR ''S'' then pad2 (tm_sec t)
      else [CHR ''%'', c])"

fun put_time :: "tm \<Rightarrow> string \<Rightarrow> string" where
  "put_time t [] = []"
| "put_time t [c] = [c]"
| "put_time t (c # d # fs) =
     (if c = CHR ''%'' then conversion d t @ put_time t fs else c # put_time t (d # fs))"

section \<open>The pattern of a timestamp\<close>

text \<open>
  The regular expression \<open>^\d{4}-\d{2}-\d{2}T\d{2}:\d{2}:\d{2}Z$\<close>, one item for each
  character it accepts.
\<close>

datatype pat = Digit | Lit char

definition is_digit :: "char \<Rightarrow> bool" where
  "is_digit c = (c \<in> set ''0123456789'')"

fun matches :: "pat list \<Rightarrow> string \<Rightarrow> bool" where
  "matches [] [] = True"
| "matches (Digit # ps) (c # cs) = (is_digit c \<and> matches ps cs)"
| "matches (Lit l # ps) (c # cs) = (c = l \<and> matches ps cs)"
| "matches ps cs = False"

definition timestamp_pattern :: "pat list" where
  "timestamp_pattern =
     [Digit, Digit, Digit, Digit, Lit (CHR ''-''), Digit, Digit, Lit (CHR ''-''), Digit, Digit,
      Lit (CHR ''T''), Digit, Digit, Lit (CHR '':''), Digit, Digit, Lit (CHR '':''), Digit, Digit,
      Lit (CHR ''Z'')]"

section \<open>Reading a timestamp\<close>

text \<open>
  What a string of the form \<open>YYYY-MM-DDTHH:MM:SSZ\<close> says: the instant, in seconds since
  1970-01-01T00:00:00 UTC, of the date and time of day it names in UTC. This is written
  from the calendar, not from the program: a year is a leap year when it is divisible by
  4 and not by 100, or divisible by 400; the months have their usual lengths; a day has
  86400 seconds.
\<close>

definition digit_value :: "char \<Rightarrow> nat" where
  "digit_value c = of_char c - 48"

definition decimal_value :: "string \<Rightarrow> nat" where
  "decimal_value cs = foldl (\<lambda>a c. 10 * a + digit_value c) 0 cs"

definition is_leap_year :: "int \<Rightarrow> bool" where
  "is_leap_year y = (y mod 4 = 0 \<and> (y mod 100 \<noteq> 0 \<or> y mod 400 = 0))"

definition month_lengths :: "int \<Rightarrow> int list" where
  "month_lengths y =
     [31, if is_leap_year y then 29 else 28, 31, 30, 31, 30, 31, 31, 30, 31, 30, 31]"

text \<open>The days of year \<open>y\<close> that lie before the first of month \<open>m\<close>.\<close>

definition days_before_month :: "int \<Rightarrow> int \<Rightarrow> int" where
  "days_before_month y m = sum_list (take (nat (m - 1)) (month_lengths y))"

text \<open>The leap years among the years 1 to \<open>y - 1\<close>.\<close>

definition leap_years_before :: "int \<Rightarrow> int" where
  "leap_years_before y = (y - 1) div 4 - (y - 1) div 100 + (y - 1) div 400"

text \<open>The days from 1970-01-01 to the first of January of year \<open>y\<close>.\<close>

definition days_before_year :: "int \<Rightarrow> int" where
  "days_before_year y = 365 * (y - 1970) + (leap_years_before y - leap_years_before 1970)"

definition utc_seconds :: "int \<Rightarrow> int \<Rightarrow> int \<Rightarrow> int \<Rightarrow> int \<Rightarrow> int \<Rightarrow> int" where
  "utc_seconds y m d h mi s =
     (days_before_year y + days_before_month y m + (d - 1)) * 86400 + h * 3600 + mi * 60 + s"

definition timestamp_instant :: "string \<Rightarrow> int option" where
  "timestamp_instant ts =
     (if matches timestamp_pattern ts
      then Some (utc_seconds (int (decimal_value (take 4 ts)))
                   (int (decimal_value (take 2 (drop 5 ts))))
                   (int (decimal_value (take 2 (drop 8 ts))))
                   (int (decimal_value (take 2 (drop 11 ts))))
                   (int (decimal_value (take 2 (drop 14 ts))))
                   (int (decimal_value (take 2 (drop 17 ts)))))
      else None)"

section \<open>The monitor and the process-wide state\<close>

text \<open>
  An instance holds the persistent reference to its callback (the member \<open>callback_\<close>,
  empty until the constructor stores one) and the monitoring flag (the member
  \<open>isMonitoring_\<close>); a name cannot end in an underscore here.
\<close>

record monitor =
  callback_ref :: "nat option"
  isMonitoring_flag :: bool

text \<open>
  The state of the process: the instances by address, the two globals (\<open>g_callback\<close> is
  the closure, which captures nothing but \<open>this\<close>), and the calls made into host
  functions so far, oldest first.
\<close>

record world =
  heap :: "nat \<rightharpoonup> monitor"
  g_callback :: "nat option"
  g_monitorInstance :: "nat option"
  host_calls :: "(nat \<times> js_value list) list"

definition init_world :: world where
  "init_world = \<lparr>heap = Map.empty, g_callback = None, g_monitorInstance = None, host_calls = []\<rparr>"

definition isMonitoring :: "nat \<Rightarrow> world \<Rightarrow> bool" where
  "isMonitoring this w = (case heap w this of None \<Rightarrow> False | Some m \<Rightarrow> isMonitoring_flag m)"

definition set_isMonitoring :: "nat \<Rightarrow> bool \<Rightarrow> world \<Rightarrow> world" where
  "set_isMonitoring this b w =
     (case heap w this of
        None \<Rightarrow> w
      | Some m \<Rightarrow> w\<lparr>heap := (heap w)(this \<mapsto> m\<lparr>isMonitoring_flag := b\<rparr>)\<rparr>)"

text \<open>
  The constructor. The member initialiser runs first; a missing or non-function argument
  leaves a JavaScript exception pending and returns.
\<close>

definition NotificationMonitor :: "nat \<Rightarrow> CallbackInfo \<Rightarrow> world \<Rightarrow> js_error option \<times> world" where
  "NotificationMonitor this info w =
     (let w0 = w\<lparr>heap := (heap w)(this \<mapsto> \<lparr>callback_ref = None, isMonitoring_flag = False\<rparr>)\<rparr>
      in if Length info < 1 \<or> \<not> IsFunction (arg_at info 0)
         then (Some (TypeError ''Callback function required''), w0)
         else (None,
               w0\<lparr>heap := (heap w0)(this \<mapsto>
                      \<lparr>callback_ref = As_Function (arg_at info 0), isMonitoring_flag = False\<rparr>),
                  g_monitorInstance := Some this,
                  g_callback := Some this\<rparr>))"

definition SetupMonitoring :: "nat \<Rightarrow> world \<Rightarrow> world" where
  "SetupMonitoring this w = set_isMonitoring this True w"

text \<open>
  \<open>Start\<close>, returning beside its value and the new state the number of calls of
  \<open>SetupMonitoring\<close> it made.
\<close>

definition Start_counting :: "nat \<Rightarrow> CallbackInfo \<Rightarrow> world \<Rightarrow> (js_value \<times> world) \<times> nat" where
  "Start_counting this info w =
     (if \<not> isMonitoring this w then ((JSUndefined, SetupMonitoring this w), 1)
      else ((JSUndefined, w), 0))"

definition Start :: "nat \<Rightarrow> CallbackInfo \<Rightarrow> world \<Rightarrow> js_value \<times> world" where
  "Start this info w = fst (Start_counting this info w)"

definition Stop :: "nat \<Rightarrow> CallbackInfo \<Rightarrow> world \<Rightarrow> js_value \<times> world" where
  "Stop this info w = (JSUndefined, set_isMonitoring this False w)"

text \<open>
  What can end a call before it has done its work: the process is brought down by a
  fatal error of the binding library, the global closure is empty, the instance it
  captured is gone, the instance holds no callback, or the clock value has no broken-down
  time.
\<close>

datatype failure = FatalError | BadFunctionCall | DanglingInstance | EmptyReference | NullTime

text \<open>
  The constructor of \<open>Napi::CallbackInfo\<close> asks its environment for the frame of the call.
  On the null environment that request fails, and the library's way of reporting the
  failure needs the environment again and ends the process.
\<close>

definition CallbackInfo_new :: "nat option \<Rightarrow> js_value list \<Rightarrow> failure + CallbackInfo" where
  "CallbackInfo_new env as =
     (case env of
        None \<Rightarrow> Inl FatalError
      | Some e \<Rightarrow> Inr \<lparr>info_env = Some e, info_args = as\<rparr>)"

text \<open>
  The body of the destructor; the storage of the instance is released after it. The
  argument of \<open>Stop\<close>, \<open>Napi::CallbackInfo(nullptr, 0)\<close>, is built before \<open>Stop\<close> is
  entered.
\<close>

definition destructor :: "nat \<Rightarrow> world \<Rightarrow> failure + world" where
  "destructor this w =
     (if isMonitoring this w
      then (case CallbackInfo_new None [] of
              Inl e \<Rightarrow> Inl e
            | Inr info \<Rightarrow> Inr (snd (Stop this info w)))
      else Inr w)"

text \<open>
  \<open>OnNotificationReceived\<close>, with the reading of the system clock (seconds since the
  epoch) as the argument \<open>now\<close>; \<open>notificationObj\<close> is the object it builds. The call
  of the host callback is recorded whether it returns or throws: the handler catches and
  drops what it throws. The pointer that \<open>gmtime\<close> returns goes to \<open>put_time\<close> unchecked;
  with a null pointer the call has no defined behaviour, no payload is built from it, and
  the model ends the call there with \<open>NullTime\<close>.
\<close>

definition notificationObj :: "string \<Rightarrow> string \<Rightarrow> string \<Rightarrow> tm \<Rightarrow> js_value" where
  "notificationObj appName title body t =
     (let o1 = Object_Set Object_New ''appName'' (String_New appName);
          o2 = Object_Set o1 ''title'' (String_New title);
          o3 = Object_Set o2 ''body'' (String_New body);
          o4 = Object_Set o3 ''timestamp'' (String_New (put_time t ''%Y-%m-%dT%H:%M:%SZ''))
      in JSObject o4)"

definition OnNotificationReceived :: "nat \<Rightarrow> int \<Rightarrow> string \<Rightarrow> string \<Rightarrow> string \<Rightarrow> world \<Rightarrow> failure + world" where
  "OnNotificationReceived this now appName title body w =
     (case heap w this of
        None \<Rightarrow> Inl DanglingInstance
      | Some m \<Rightarrow>
          (case callback_ref m of
             None \<Rightarrow> Inl EmptyReference
           | Some cb \<Rightarrow>
               (case gmtime now of
                  None \<Rightarrow> Inl NullTime
                | Some t \<Rightarrow>
                    Inr (w\<lparr>host_calls :=
                            host_calls w @ [(cb, [notificationObj appName title body t])]\<rparr>))))"

text \<open>
  A call of the global closure: the only way into \<open>OnNotificationReceived\<close>. The source
  itself never calls it, the registration with the operating system being left to do;
  a notification that arrives is taken to be one call of the closure.
\<close>

definition call_g_callback :: "int \<Rightarrow> string \<Rightarrow> string \<Rightarrow> string \<Rightarrow> world \<Rightarrow> failure + world" where
  "call_g_callback now appName title body w =
     (case g_callback w of
        None \<Rightarrow> Inl BadFunctionCall
      | Some this \<Rightarrow> OnNotificationReceived this now appName title body w)"

section \<open>Runs of the program\<close>

text \<open>
  What the host and the operating system can do to the module: construct an instance at
  an address, call \<open>start\<close> or \<open>stop\<close> on an instance, destroy an instance, and hand
  a notification to the global closure. A member function run on an address that holds
  no instance leaves the state as it is, and so does a step that fails: the process, if
  it goes on at all, goes on from the state it had.
\<close>

datatype op =
    New nat "js_value list"
  | CallStart nat "js_value list"
  | CallStop nat "js_value list"
  | Delete nat
  | Notify int string string string

fun step :: "op \<Rightarrow> world \<Rightarrow> world" where
  "step (New this as) w = snd (NotificationMonitor this (js_call as) w)"
| "step (CallStart this as) w = snd (Start this (js_call as) w)"
| "step (CallStop this as) w = snd (Stop this (js_call as) w)"
| "step (Delete this) w =
     (case destructor this w of
        Inl e \<Rightarrow> w
      | Inr w' \<Rightarrow> w'\<lparr>heap := (heap w')(this := None)\<rparr>)"
| "step (Notify now appName title body) w =
     (case call_g_callback now appName title body w of Inl e \<Rightarrow> w | Inr w' \<Rightarrow> w')"

fun run :: "op list \<Rightarrow> world \<Rightarrow> world" where
  "run [] w = w"
| "run (x # xs) w = run xs (step x w)"

text \<open>The address of the last instance whose construction succeeded, if any.\<close>

fun last_constructed :: "op list \<Rightarrow> nat option \<Rightarrow> nat option" where
  "last_constructed [] l = l"
| "last_constructed (New this as # xs) l =
     last_constructed xs (if as \<noteq> [] \<and> IsFunction (hd as) then Some this else l)"
| "last_constructed (x # xs) l = last_constructed xs l"

section \<open>Shapes and example states\<close>

text \<open>
  A payload in the shape of a notification record: an object with the four properties
  \<open>appName\<close>, \<open>title\<close>, \<open>body\<close> and \<open>timestamp\<close> and no other, each one a string.
\<close>

definition record_shaped :: "js_value \<Rightarrow> bool" where
  "record_shaped v =
     (case v of
        JSObject ps \<Rightarrow>
          map fst ps = [''appName'', ''title'', ''body'', ''timestamp'']
          \<and> list_all (\<lambda>p. IsString (snd p)) ps
      | _ \<Rightarrow> False)"

text \<open>\<open>obj.timestamp\<close> and the like: the value of a property, if the object has it.\<close>

definition property :: "js_value \<Rightarrow> string \<Rightarrow> js_value option" where
  "property v k = (case v of JSObject ps \<Rightarrow> map_of ps k | _ \<Rightarrow> None)"

text \<open>
  Two states used as examples: one instance at address 0 with the host function 7 as its
  callback, idle and monitoring.
\<close>

definition idle_world :: world where
  "idle_world =
     \<lparr>heap = [0 \<mapsto> \<lparr>callback_ref = Some 7, isMonitoring_flag = False\<rparr>],
      g_callback = Some 0, g_monitorInstance = Some 0, host_calls = []\<rparr>"

definition monitoring_world :: world where
  "monitoring_world =
     \<lparr>heap = [0 \<mapsto> \<lparr>callback_ref = Some 7, isMonitoring_flag = True\<rparr>],
      g_callback = Some 0, g_monitorInstance = Some 0, host_calls = []\<rparr>"

text \<open>
  A run used as an example: two successful constructions, a failed one, a \<open>start()\<close> and
  a \<open>stop()\<close> on the first instance and then its destruction.
\<close>

definition example_ops :: "op list" where
  "example_ops =
     [New 0 [JSFunction 7], New 1 [JSFunction 8], New 2 [], CallStart 0 [], CallStop 0 [], Delete 0]"

section \<open>Start and Stop\<close>

lemma set_isMonitoring_live:
  "heap w this = Some m \<Longrightarrow>
   set_isMonitoring this b w = w\<lparr>heap := (heap w)(this \<mapsto> m\<lparr>isMonitoring_flag := b\<rparr>)\<rparr>"
  by (simp add: set_isMonitoring_def)

lemma set_isMonitoring_same:
  "heap w this = Some m \<Longrightarrow> isMonitoring_flag m = b \<Longrightarrow> set_isMonitoring this b w = w"
  by (simp add: set_isMonitoring_def map_upd_triv)

lemma isMonitoring_live:
  "heap w this = Some m \<Longrightarrow> isMonitoring this w = isMonitoring_flag m"
  by (simp add: isMonitoring_def)

lemma Start_live:
  "heap w this = Some m \<Longrightarrow>
   Start this info w = (JSUndefined, w\<lparr>heap := (heap w)(this \<mapsto> m\<lparr>isMonitoring_flag := True\<rparr>)\<rparr>)"
  by (cases "isMonitoring_flag m")
     (simp_all add: Start_def Start_counting_def SetupMonitoring_def isMonitoring_live
        set_isMonitoring_live map_upd_triv)

lemma Stop_live:
  "heap w this = Some m \<Longrightarrow>
   Stop this info w = (JSUndefined, w\<lparr>heap := (heap w)(this \<mapsto> m\<lparr>isMonitoring_flag := False\<rparr>)\<rparr>)"
  by (simp add: Stop_def set_isMonitoring_live)

lemma idle_world_instance:
  "heap idle_world 0 = Some \<lparr>callback_ref = Some 7, isMonitoring_flag = False\<rparr>"
  by (simp add: idle_world_def)

lemma monitoring_world_instance:
  "heap monitoring_world 0 = Some \<lparr>callback_ref = Some 7, isMonitoring_flag = True\<rparr>"
  by (simp add: monitoring_world_def)

text \<open>
  Claim C5. \<open>stop()\<close> returns undefined in every state. On a live instance it leaves the
  monitoring flag false (the monitor is idle), a second \<open>stop()\<close> gives the same result
  and the same state as the first, and on an idle instance it changes nothing.
\<close>

theorem Stop_idempotent:
  "fst (Stop this info w) = JSUndefined
   \<and> (heap w this = Some m \<longrightarrow>
        heap (snd (Stop this info w)) this = Some (m\<lparr>isMonitoring_flag := False\<rparr>)
        \<and> \<not> isMonitoring this (snd (Stop this info w))
        \<and> Stop this info' (snd (Stop this info w)) = Stop this info w
        \<and> (\<not> isMonitoring_flag m \<longrightarrow> snd (Stop this info w) = w))"
proof -
  have ret: "fst (Stop this info w) = JSUndefined"
    by (simp add: Stop_def)
  have live: "heap (snd (Stop this info w)) this = Some (m\<lparr>isMonitoring_flag := False\<rparr>)"
    "\<not> isMonitoring this (snd (Stop this info w))"
    "Stop this info' (snd (Stop this info w)) = Stop this info w"
    "\<not> isMonitoring_flag m \<longrightarrow> snd (Stop this info w) = w"
    if h: "heap w this = Some m"
  proof -
    show a: "heap (snd (Stop this info w)) this = Some (m\<lparr>isMonitoring_flag := False\<rparr>)"
      by (simp add: Stop_live [OF h])
    show "\<not> isMonitoring this (snd (Stop this info w))"
      by (simp add: isMonitoring_live [OF a])
    show "Stop this info' (snd (Stop this info w)) = Stop this info w"
      using Stop_live [OF a, of info'] by (simp add: Stop_live [OF h])
    show "\<not> isMonitoring_flag m \<longrightarrow> snd (Stop this info w) = w"
      by (simp add: Stop_def set_isMonitoring_same [OF h])
  qed
  show ?thesis using ret live by blast
qed

theorem Stop_idempotent_witness:
  "heap monitoring_world 0 = Some \<lparr>callback_ref = Some 7, isMonitoring_flag = True\<rparr>
   \<and> fst (Stop 0 (js_call []) monitoring_world) = JSUndefined
   \<and> heap (snd (Stop 0 (js_call []) monitoring_world)) 0
       = Some \<lparr>callback_ref = Some 7, isMonitoring_flag = False\<rparr>
   \<and> Stop 0 (js_call []) (snd (Stop 0 (js_call []) monitoring_world))
       = Stop 0 (js_call []) monitoring_world
   \<and> heap idle_world 0 = Some \<lparr>callback_ref = Some 7, isMonitoring_flag = False\<rparr>
   \<and> snd (Stop 0 (js_call []) idle_world) = idle_world"
  using Stop_idempotent [where this = 0 and info = "js_call []" and info' = "js_call []"
      and w = monitoring_world and m = "\<lparr>callback_ref = Some 7, isMonitoring_flag = True\<rparr>"]
    Stop_idempotent [where this = 0 and info = "js_call []" and info' = "js_call []"
      and w = idle_world and m = "\<lparr>callback_ref = Some 7, isMonitoring_flag = False\<rparr>"]
  by (simp add: idle_world_instance monitoring_world_instance)

text \<open>
  Claim C4. \<open>start()\<close> returns undefined in every state. On a live instance that is
  already monitoring it changes nothing; after it the instance is monitoring; a second
  \<open>start()\<close> gives the same result and the same state as the first; and the two calls
  together call \<open>SetupMonitoring\<close> once when the instance was idle and not at all when it
  was monitoring.
\<close>

theorem Start_idempotent:
  "fst (Start this info w) = JSUndefined
   \<and> (heap w this = Some m \<longrightarrow>
        (isMonitoring_flag m \<longrightarrow> Start this info w = (JSUndefined, w))
        \<and> isMonitoring this (snd (Start this info w))
        \<and> Start this info' (snd (Start this info w)) = Start this info w
        \<and> snd (Start_counting this info w)
            + snd (Start_counting this info' (snd (Start this info w)))
          = (if isMonitoring_flag m then 0 else 1))"
proof -
  have ret: "fst (Start this info w) = JSUndefined"
    by (simp add: Start_def Start_counting_def)
  have live: "isMonitoring_flag m \<longrightarrow> Start this info w = (JSUndefined, w)"
    "isMonitoring this (snd (Start this info w))"
    "Start this info' (snd (Start this info w)) = Start this info w"
    "snd (Start_counting this info w)
       + snd (Start_counting this info' (snd (Start this info w)))
     = (if isMonitoring_flag m then 0 else 1)"
    if h: "heap w this = Some m"
  proof -
    have a: "heap (snd (Start this info w)) this = Some (m\<lparr>isMonitoring_flag := True\<rparr>)"
      by (simp add: Start_live [OF h])
    show "isMonitoring_flag m \<longrightarrow> Start this info w = (JSUndefined, w)"
      by (simp add: Start_def Start_counting_def isMonitoring_live [OF h])
    show b: "isMonitoring this (snd (Start this info w))"
      by (simp add: isMonitoring_live [OF a])
    show "Start this info' (snd (Start this info w)) = Start this info w"
      using Start_live [OF a, of info'] by (simp add: Start_live [OF h])
    show "snd (Start_counting this info w)
       + snd (Start_counting this info' (snd (Start this info w)))
     = (if isMonitoring_flag m then 0 else 1)"
      using b by (simp add: Start_counting_def isMonitoring_live [OF h])
  qed
  show ?thesis using ret live by blast
qed

theorem Start_idempotent_witness:
  "heap idle_world 0 = Some \<lparr>callback_ref = Some 7, isMonitoring_flag = False\<rparr>
   \<and> fst (Start 0 (js_call []) idle_world) = JSUndefined
   \<and> isMonitoring 0 (snd (Start 0 (js_call []) idle_world))
   \<and> Start 0 (js_call []) (snd (Start 0 (js_call []) idle_world))
       = Start 0 (js_call []) idle_world
   \<and> snd (Start_counting 0 (js_call []) idle_world)
       + snd (Start_counting 0 (js_call []) (snd (Start 0 (js_call []) idle_world))) = 1
   \<and> heap monitoring_world 0 = Some \<lparr>callback_ref = Some 7, isMonitoring_flag = True\<rparr>
   \<and> Start 0 (js_call []) monitoring_world = (JSUndefined, monitoring_world)"
  using Start_idempotent [where this = 0 and info = "js_call []" and info' = "js_call []"
      and w = idle_world and m = "\<lparr>callback_ref = Some 7, isMonitoring_flag = False\<rparr>"]
    Start_idempotent [where this = 0 and info = "js_call []" and info' = "js_call []"
      and w = monitoring_world and m = "\<lparr>callback_ref = Some 7, isMonitoring_flag = True\<rparr>"]
  by (simp add: idle_world_instance monitoring_world_instance)

text \<open>
  Claim C7. On a live instance \<open>Start\<close> and \<open>Stop\<close> change the process state in one
  place only, the monitoring flag of that instance: its callback reference, every
  other instance, both globals and the record of host calls are as before. There is no
  other state: the program holds no registration with a notification service.
\<close>

theorem Start_Stop_only_toggle_flag:
  "heap w this = Some m \<Longrightarrow>
     snd (Start this info w) = w\<lparr>heap := (heap w)(this \<mapsto> m\<lparr>isMonitoring_flag := True\<rparr>)\<rparr>
   \<and> snd (Stop this info w) = w\<lparr>heap := (heap w)(this \<mapsto> m\<lparr>isMonitoring_flag := False\<rparr>)\<rparr>
   \<and> (\<forall>w' \<in> {snd (Start this info w), snd (Stop this info w)}.
         g_callback w' = g_callback w
       \<and> g_monitorInstance w' = g_monitorInstance w
       \<and> host_calls w' = host_calls w
       \<and> (\<forall>p. p \<noteq> this \<longrightarrow> heap w' p = heap w p)
       \<and> map_option callback_ref (heap w' this) = Some (callback_ref m))"
  by (simp add: Start_live Stop_live)

theorem Start_Stop_only_toggle_flag_witness:
  "heap idle_world 0 = Some \<lparr>callback_ref = Some 7, isMonitoring_flag = False\<rparr>
   \<and> snd (Start 0 (js_call []) idle_world)
       = idle_world\<lparr>heap := (heap idle_world)(0 \<mapsto> \<lparr>callback_ref = Some 7, isMonitoring_flag = True\<rparr>)\<rparr>
   \<and> g_callback (snd (Start 0 (js_call []) idle_world)) = Some 0
   \<and> g_monitorInstance (snd (Stop 0 (js_call []) idle_world)) = Some 0
   \<and> host_calls (snd (Start 0 (js_call []) idle_world)) = []"
  using Start_Stop_only_toggle_flag [where this = 0 and info = "js_call []" and w = idle_world
      and m = "\<lparr>callback_ref = Some 7, isMonitoring_flag = False\<rparr>", OF idle_world_instance]
  by (simp add: idle_world_def)

lemma destructor_cases:
  "destructor this w = (if isMonitoring this w then Inl FatalError else Inr w)"
  by (simp add: destructor_def CallbackInfo_new_def)

text \<open>
  Claim C8. The destructor of an idle instance changes nothing, as the claim says. The
  destructor of a monitoring instance does not get as far as \<open>Stop\<close>: building the
  argument of the call from the null environment ends the process, and the monitoring
  flag is still set.
\<close>

theorem destructor_aborts_when_monitoring:
  "isMonitoring 0 monitoring_world
   \<and> destructor 0 monitoring_world = Inl FatalError
   \<and> step (Delete 0) monitoring_world = monitoring_world
   \<and> destructor 0 idle_world = Inr idle_world"
  by (simp add: destructor_cases isMonitoring_live [OF monitoring_world_instance]
        isMonitoring_live [OF idle_world_instance])

section \<open>Construction\<close>

lemma no_callback_iff:
  "(Length info < 1 \<or> \<not> IsFunction (arg_at info 0))
     = (info_args info = [] \<or> \<not> IsFunction (hd (info_args info)))"
  by (cases "info_args info") (simp_all add: Length_def arg_at_def)

lemma IsFunction_iff: "IsFunction v = (\<exists>f. v = JSFunction f)"
  by (cases v) simp_all

text \<open>
  Claim C6. The constructor raises the type error exactly when the first argument is
  missing or is not a function, and raises nothing exactly when the first argument is
  a function.
\<close>

theorem constructor_fails_iff_no_callback:
  "(fst (NotificationMonitor this info w) = Some (TypeError ''Callback function required''))
     = (info_args info = [] \<or> \<not> IsFunction (hd (info_args info)))
   \<and> (fst (NotificationMonitor this info w) = None)
     = (\<exists>f rest. info_args info = JSFunction f # rest)"
proof -
  have a: "(fst (NotificationMonitor this info w) = Some (TypeError ''Callback function required''))
     = (info_args info = [] \<or> \<not> IsFunction (hd (info_args info)))"
    unfolding NotificationMonitor_def Let_def no_callback_iff by simp
  have b: "(fst (NotificationMonitor this info w) = None)
     = (\<not> (info_args info = [] \<or> \<not> IsFunction (hd (info_args info))))"
    unfolding NotificationMonitor_def Let_def no_callback_iff by simp
  have c: "(\<not> (info_args info = [] \<or> \<not> IsFunction (hd (info_args info))))
     = (\<exists>f rest. info_args info = JSFunction f # rest)"
    by (cases "info_args info") (auto simp add: IsFunction_iff)
  show ?thesis using a b c by simp
qed

theorem constructor_fails_iff_no_callback_witness:
  "fst (NotificationMonitor 0 (js_call []) init_world) = Some (TypeError ''Callback function required'')
   \<and> fst (NotificationMonitor 0 (js_call [JSString ''f'']) init_world)
       = Some (TypeError ''Callback function required'')
   \<and> fst (NotificationMonitor 0 (js_call [JSFunction 7, JSNumber 1]) init_world) = None"
  using constructor_fails_iff_no_callback [where this = 0 and info = "js_call []" and w = init_world]
    constructor_fails_iff_no_callback [where this = 0 and info = "js_call [JSString ''f'']" and w = init_world]
    constructor_fails_iff_no_callback [where this = 0 and info = "js_call [JSFunction 7, JSNumber 1]"
      and w = init_world]
  by (simp add: js_call_def)

text \<open>
  Claim C10. When the argument is missing or is not a function, the constructor raises
  the type error and has changed nothing but the new instance itself, which holds no
  callback and has its monitoring flag false: both globals, every other instance and
  the record of host calls are as before.
\<close>

theorem failed_construction_keeps_globals:
  "Length info < 1 \<or> \<not> IsFunction (arg_at info 0) \<Longrightarrow>
     NotificationMonitor this info w
       = (Some (TypeError ''Callback function required''),
          w\<lparr>heap := (heap w)(this \<mapsto> \<lparr>callback_ref = None, isMonitoring_flag = False\<rparr>)\<rparr>)
   \<and> g_monitorInstance (snd (NotificationMonitor this info w)) = g_monitorInstance w
   \<and> g_callback (snd (NotificationMonitor this info w)) = g_callback w
   \<and> \<not> isMonitoring this (snd (NotificationMonitor this info w))"
  by (simp add: NotificationMonitor_def Let_def isMonitoring_def)

theorem failed_construction_keeps_globals_witness:
  "(Length (js_call [JSNumber 3]) < 1 \<or> \<not> IsFunction (arg_at (js_call [JSNumber 3]) 0))
   \<and> fst (NotificationMonitor 1 (js_call [JSNumber 3]) idle_world)
       = Some (TypeError ''Callback function required'')
   \<and> g_monitorInstance (snd (NotificationMonitor 1 (js_call [JSNumber 3]) idle_world)) = Some 0
   \<and> g_callback (snd (NotificationMonitor 1 (js_call [JSNumber 3]) idle_world)) = Some 0
   \<and> \<not> isMonitoring 1 (snd (NotificationMonitor 1 (js_call [JSNumber 3]) idle_world))"
proof -
  have h: "Length (js_call [JSNumber 3]) < 1 \<or> \<not> IsFunction (arg_at (js_call [JSNumber 3]) 0)"
    by (simp add: js_call_def Length_def arg_at_def)
  note t = failed_construction_keeps_globals [OF h, where this = 1 and w = idle_world]
  have a: "fst (NotificationMonitor 1 (js_call [JSNumber 3]) idle_world)
       = Some (TypeError ''Callback function required'')"
    using t by simp
  have b: "g_monitorInstance (snd (NotificationMonitor 1 (js_call [JSNumber 3]) idle_world)) = Some 0"
    "g_callback (snd (NotificationMonitor 1 (js_call [JSNumber 3]) idle_world)) = Some 0"
    using t by (simp_all add: idle_world_def)
  have c: "\<not> isMonitoring 1 (snd (NotificationMonitor 1 (js_call [JSNumber 3]) idle_world))"
    using t by blast
  show ?thesis
    using h a b c by blast
qed

section \<open>The calendar\<close>

lemma cycle_bounds:
  fixes r :: int
  assumes r: "0 \<le> r" "r \<le> 146096"
  defines "n100 \<equiv> min 3 (r div 36524)"
  defines "r2 \<equiv> r - n100 * 36524"
  defines "n4 \<equiv> r2 div 1461"
  defines "r3 \<equiv> r2 mod 1461"
  defines "n1 \<equiv> min 3 (r3 div 365)"
  defines "doy \<equiv> r3 - n1 * 365"
  shows "0 \<le> n100 \<and> n100 \<le> 3 \<and> 0 \<le> n4 \<and> n4 \<le> 24 \<and> 0 \<le> n1 \<and> n1 \<le> 3 \<and> 0 \<le> doy \<and> doy \<le> 365"
proof -
  have a: "0 \<le> n100 \<and> n100 \<le> 3" using r unfolding n100_def by simp
  have b: "0 \<le> r2 \<and> r2 \<le> 36524" using r unfolding r2_def n100_def min_def by (simp; arith)
  have c: "0 \<le> n4 \<and> n4 \<le> 24" using b unfolding n4_def by arith
  have d: "0 \<le> r3 \<and> r3 \<le> 1460" unfolding r3_def by simp
  have e: "0 \<le> n1 \<and> n1 \<le> 3" using d unfolding n1_def min_def by (simp; arith)
  have f: "0 \<le> doy \<and> doy \<le> 365" using d unfolding doy_def n1_def min_def by (simp; arith)
  show ?thesis using a c e f by simp
qed

lemma month_bounds:
  fixes doy :: int
  assumes "0 \<le> doy" "doy \<le> 365"
  defines "mp \<equiv> (5 * doy + 2) div 153"
  defines "d \<equiv> doy - (153 * mp + 2) div 5 + 1"
  defines "m \<equiv> (if mp < 10 then mp + 3 else mp - 9)"
  shows "1 \<le> m \<and> m \<le> 12 \<and> 1 \<le> d \<and> d \<le> 31 \<and> 0 \<le> mp \<and> mp \<le> 11"
proof -
  have a: "0 \<le> mp \<and> mp \<le> 11" using assms(1,2) unfolding mp_def by arith
  have b: "1 \<le> m \<and> m \<le> 12" using a unfolding m_def by simp
  have c: "1 \<le> d \<and> d \<le> 31" using assms(1,2) unfolding d_def mp_def by arith
  show ?thesis using a b c by simp
qed

lemma civil_bounds:
  fixes days :: int
  assumes "0 \<le> days" "days \<le> 376564"
  defines "z \<equiv> days + 719468"
  defines "n400 \<equiv> z div 146097"
  defines "r \<equiv> z mod 146097"
  defines "n100 \<equiv> min 3 (r div 36524)"
  defines "r2 \<equiv> r - n100 * 36524"
  defines "n4 \<equiv> r2 div 1461"
  defines "r3 \<equiv> r2 mod 1461"
  defines "n1 \<equiv> min 3 (r3 div 365)"
  defines "doy \<equiv> r3 - n1 * 365"
  defines "y \<equiv> 400 * n400 + 100 * n100 + 4 * n4 + n1"
  defines "mp \<equiv> (5 * doy + 2) div 153"
  defines "d \<equiv> doy - (153 * mp + 2) div 5 + 1"
  defines "m \<equiv> (if mp < 10 then mp + 3 else mp - 9)"
  shows "1000 \<le> (if m \<le> 2 then y + 1 else y) \<and> (if m \<le> 2 then y + 1 else y) \<le> 9999
         \<and> 1 \<le> m \<and> m \<le> 12 \<and> 1 \<le> d \<and> d \<le> 31"
proof -
  have n400: "4 \<le> n400 \<and> n400 \<le> 7"
    using assms(1,2) unfolding n400_def z_def by arith
  have r: "0 \<le> r" "r \<le> 146096"
    unfolding r_def by simp_all
  have c: "0 \<le> n100 \<and> n100 \<le> 3 \<and> 0 \<le> n4 \<and> n4 \<le> 24 \<and> 0 \<le> n1 \<and> n1 \<le> 3 \<and> 0 \<le> doy \<and> doy \<le> 365"
    unfolding n100_def n4_def n1_def doy_def r3_def r2_def
    by (rule cycle_bounds [OF r])
  have md: "1 \<le> m \<and> m \<le> 12 \<and> 1 \<le> d \<and> d \<le> 31 \<and> 0 \<le> mp \<and> mp \<le> 11"
    unfolding m_def d_def mp_def
    by (rule month_bounds) (use c in simp_all)
  have y: "1600 \<le> y \<and> y \<le> 3199"
    using n400 c unfolding y_def by arith
  show ?thesis using y md by auto
qed

lemma civil_from_days_bounds:
  assumes "0 \<le> days" "days \<le> 376564" "civil_from_days days = (y, m, d)"
  shows "1000 \<le> y \<and> y \<le> 9999 \<and> 1 \<le> m \<and> m \<le> 12 \<and> 1 \<le> d \<and> d \<le> 31"
  using civil_bounds [OF assms(1,2)] assms(3)
  unfolding civil_from_days_def Let_def prod.inject
  by blast

lemma gmtime_fields:
  assumes "gmtime now = Some t"
  shows "1000 \<le> tm_year t + 1900 \<and> tm_year t + 1900 \<le> 9999
       \<and> 1 \<le> tm_mon t + 1 \<and> tm_mon t + 1 \<le> 12
       \<and> 1 \<le> tm_mday t \<and> tm_mday t \<le> 31
       \<and> 0 \<le> tm_hour t \<and> tm_hour t \<le> 23
       \<and> 0 \<le> tm_min t \<and> tm_min t \<le> 59
       \<and> 0 \<le> tm_sec t \<and> tm_sec t \<le> 59"
proof -
  have range: "0 \<le> now" "now \<le> 32535215999"
    using assms by (simp_all add: gmtime_def MAX_TIME64_T_def split: if_splits)
  obtain y m d where c: "civil_from_days (now div 86400) = (y, m, d)"
    by (cases "civil_from_days (now div 86400)")
  have days: "0 \<le> now div 86400" "now div 86400 \<le> 376564"
    using range by arith+
  have t: "t = \<lparr>tm_sec = now mod 86400 mod 60, tm_min = now mod 86400 mod 3600 div 60,
                tm_hour = now mod 86400 div 3600, tm_mday = d, tm_mon = m - 1, tm_year = y - 1900\<rparr>"
    using assms range c by (simp add: gmtime_def MAX_TIME64_T_def Let_def)
  have rem: "0 \<le> now mod 86400" "now mod 86400 \<le> 86399"
    by simp_all
  have h: "0 \<le> now mod 86400 div 3600 \<and> now mod 86400 div 3600 \<le> 23"
    using rem by arith
  have mi: "0 \<le> now mod 86400 mod 3600 div 60 \<and> now mod 86400 mod 3600 div 60 \<le> 59"
    by arith
  have s: "0 \<le> now mod 86400 mod 60 \<and> now mod 86400 mod 60 \<le> 59"
    by simp
  show ?thesis
    using civil_from_days_bounds [OF days c] h mi s by (simp add: t)
qed

section \<open>The format of the timestamp\<close>

lemma is_digit_digit_char: "is_digit (digit_char n)"
  unfolding is_digit_def digit_char_def by (rule nth_mem) simp

lemma dec_digits: "list_all is_digit (dec n)"
proof (induction n rule: dec.induct)
  case (1 n)
  then show ?case
    by (subst dec.simps) (simp add: is_digit_digit_char)
qed

lemma dec_length:
  "length (dec n) = (if n < 10 then 1 else Suc (length (dec (n div 10))))"
  by (subst dec.simps) simp

lemma dec_length_1: "n < 10 \<Longrightarrow> length (dec n) = 1"
  by (simp add: dec_length)

lemma dec_length_2: "10 \<le> n \<Longrightarrow> n < 100 \<Longrightarrow> length (dec n) = 2"
proof -
  assume a: "10 \<le> n" "n < 100"
  then have "n div 10 < 10" by arith
  then have "length (dec (n div 10)) = 1" by (rule dec_length_1)
  then show ?thesis using a by (simp add: dec_length [of n])
qed

lemma dec_length_3: "100 \<le> n \<Longrightarrow> n < 1000 \<Longrightarrow> length (dec n) = 3"
proof -
  assume a: "100 \<le> n" "n < 1000"
  then have "10 \<le> n div 10" "n div 10 < 100" by arith+
  then have "length (dec (n div 10)) = 2" by (rule dec_length_2)
  then show ?thesis using a by (simp add: dec_length [of n])
qed

lemma dec_length_4: "1000 \<le> n \<Longrightarrow> n < 10000 \<Longrightarrow> length (dec n) = 4"
proof -
  assume a: "1000 \<le> n" "n < 10000"
  then have "100 \<le> n div 10" "n div 10 < 1000" by arith+
  then have "length (dec (n div 10)) = 3" by (rule dec_length_3)
  then show ?thesis using a by (simp add: dec_length [of n])
qed

lemma year_format:
  "1000 \<le> i \<Longrightarrow> i \<le> 9999 \<Longrightarrow> list_all is_digit (dec_int i) \<and> length (dec_int i) = 4"
  by (simp add: dec_int_def dec_digits dec_length_4)

lemma pad2_format:
  "0 \<le> i \<Longrightarrow> i \<le> 99 \<Longrightarrow> list_all is_digit (pad2 i) \<and> length (pad2 i) = 2"
proof (cases "i < 10")
  case True
  assume "0 \<le> i" "i \<le> 99"
  with True show ?thesis
    by (simp add: pad2_def dec_int_def dec_digits dec_length_1 is_digit_def)
next
  case False
  assume "0 \<le> i" "i \<le> 99"
  with False show ?thesis
    by (simp add: pad2_def dec_int_def dec_digits dec_length_2)
qed

lemma matches_digit_block:
  "list_all is_digit cs \<Longrightarrow> length cs = n \<Longrightarrow> matches ps rest \<Longrightarrow>
   matches (replicate n Digit @ ps) (cs @ rest)"
  by (induction cs arbitrary: n) auto

lemma matches_lit: "matches ps rest \<Longrightarrow> matches (Lit c # ps) (c # rest)"
  by simp

lemma timestamp_pattern_blocks:
  "timestamp_pattern =
     replicate 4 Digit @ Lit (CHR ''-'') # replicate 2 Digit @ Lit (CHR ''-'') #
     replicate 2 Digit @ Lit (CHR ''T'') # replicate 2 Digit @ Lit (CHR '':'') #
     replicate 2 Digit @ Lit (CHR '':'') # replicate 2 Digit @ Lit (CHR ''Z'') # []"
  by (simp add: timestamp_pattern_def eval_nat_numeral)

lemma put_time_fields:
  "put_time t ''%Y-%m-%dT%H:%M:%SZ'' =
     dec_int (tm_year t + 1900) @ CHR ''-'' # pad2 (tm_mon t + 1) @ CHR ''-'' #
     pad2 (tm_mday t) @ CHR ''T'' # pad2 (tm_hour t) @ CHR '':'' #
     pad2 (tm_min t) @ CHR '':'' # pad2 (tm_sec t) @ CHR ''Z'' # []"
  by (simp add: conversion_def)

lemma gmtime_timestamp_matches:
  assumes "gmtime now = Some t"
  shows "matches timestamp_pattern (put_time t ''%Y-%m-%dT%H:%M:%SZ'')"
proof -
  note f = gmtime_fields [OF assms]
  have y: "list_all is_digit (dec_int (tm_year t + 1900))" "length (dec_int (tm_year t + 1900)) = 4"
    using year_format [of "tm_year t + 1900"] f by simp_all
  have mo: "list_all is_digit (pad2 (tm_mon t + 1))" "length (pad2 (tm_mon t + 1)) = 2"
    using pad2_format [of "tm_mon t + 1"] f by simp_all
  have d: "list_all is_digit (pad2 (tm_mday t))" "length (pad2 (tm_mday t)) = 2"
    using pad2_format [of "tm_mday t"] f by simp_all
  have h: "list_all is_digit (pad2 (tm_hour t))" "length (pad2 (tm_hour t)) = 2"
    using pad2_format [of "tm_hour t"] f by simp_all
  have mi: "list_all is_digit (pad2 (tm_min t))" "length (pad2 (tm_min t)) = 2"
    using pad2_format [of "tm_min t"] f by simp_all
  have s: "list_all is_digit (pad2 (tm_sec t))" "length (pad2 (tm_sec t)) = 2"
    using pad2_format [of "tm_sec t"] f by simp_all
  show ?thesis
    unfolding timestamp_pattern_blocks put_time_fields
    by (intro matches_digit_block matches_lit y mo d h mi s) simp
qed

section \<open>Reading the timestamp back\<close>

lemma div_step:
  fixes y k :: int
  assumes "0 < k"
  shows "y div k = (y - 1) div k + (if y mod k = 0 then 1 else 0)"
proof (cases "y mod k = 0")
  case True
  have "y - 1 = k * (y div k - 1) + (k - 1)"
    using True mult_div_mod_eq [of k y] by (simp add: algebra_simps)
  then have "(y - 1) div k = y div k - 1"
    by (rule int_div_pos_eq [where r = "k - 1"]) (use assms in simp_all)
  then show ?thesis using True by simp
next
  case False
  have m: "0 \<le> y mod k" "y mod k < k" using assms by simp_all
  have "y - 1 = k * (y div k) + (y mod k - 1)"
    using mult_div_mod_eq [of k y] by simp
  then have "(y - 1) div k = y div k"
    by (rule int_div_pos_eq [where r = "y mod k - 1"]) (use False m in simp_all)
  then show ?thesis using False by simp
qed

lemma leap_step:
  "leap_years_before (y + 1) = leap_years_before y + (if is_leap_year y then 1 else 0)"
proof -
  have a: "y div 4 = (y - 1) div 4 + (if y mod 4 = 0 then 1 else 0)"
    by (rule div_step) simp
  have b: "y div 100 = (y - 1) div 100 + (if y mod 100 = 0 then 1 else 0)"
    by (rule div_step) simp
  have c: "y div 400 = (y - 1) div 400 + (if y mod 400 = 0 then 1 else 0)"
    by (rule div_step) simp
  have "y mod 400 mod 100 = y mod 100"
    by (rule mod_mod_cancel) simp
  then have d: "y mod 400 = 0 \<Longrightarrow> y mod 100 = 0"
    by simp
  have "y mod 100 mod 4 = y mod 4"
    by (rule mod_mod_cancel) simp
  then have e: "y mod 100 = 0 \<Longrightarrow> y mod 4 = 0"
    by simp
  have s: "leap_years_before (y + 1) = y div 4 - y div 100 + y div 400"
    by (simp add: leap_years_before_def)
  consider (n4) "y mod 4 \<noteq> 0" | (c4) "y mod 4 = 0" "y mod 100 \<noteq> 0"
    | (c100) "y mod 100 = 0" "y mod 400 \<noteq> 0" | (c400) "y mod 400 = 0"
    by (cases "y mod 4 = 0"; cases "y mod 100 = 0"; cases "y mod 400 = 0") auto
  then show ?thesis
  proof cases
    case n4
    with d e have "y mod 100 \<noteq> 0" "y mod 400 \<noteq> 0" by auto
    with n4 show ?thesis
      unfolding s a b c by (simp add: leap_years_before_def is_leap_year_def)
  next
    case c4
    with d have "y mod 400 \<noteq> 0" by auto
    with c4 show ?thesis
      unfolding s a b c by (simp add: leap_years_before_def is_leap_year_def)
  next
    case c100
    with e have "y mod 4 = 0" by auto
    with c100 show ?thesis
      unfolding s a b c by (simp add: leap_years_before_def is_leap_year_def)
  next
    case c400
    with d e have "y mod 100 = 0" "y mod 4 = 0" by auto
    with c400 show ?thesis
      unfolding s a b c by (simp add: leap_years_before_def is_leap_year_def)
  qed
qed

lemma days_before_year_step:
  "days_before_year (y + 1) = days_before_year y + (if is_leap_year y then 366 else 365)"
  unfolding days_before_year_def leap_step by simp

lemma days_before_year_1970: "days_before_year 1970 = 0"
  by (simp add: days_before_year_def)

lemma seconds_of_day:
  fixes r :: int
  shows "r div 3600 * 3600 + r mod 3600 div 60 * 60 + r mod 60 = r"
proof -
  have a: "r mod 3600 mod 60 = r mod 60"
    by (rule mod_mod_cancel) simp
  have b: "r mod 3600 div 60 * 60 + r mod 3600 mod 60 = r mod 3600"
    by (rule div_mult_mod_eq)
  have c: "r div 3600 * 3600 + r mod 3600 = r"
    by (rule div_mult_mod_eq)
  show ?thesis using a b c by linarith
qed

lemma march_year_days:
  fixes a b c e :: int
  assumes "0 \<le> b" "b \<le> 3" "0 \<le> c" "c \<le> 24" "0 \<le> e" "e \<le> 3"
  defines "y \<equiv> 400 * a + 100 * b + 4 * c + e"
  shows "365 * y + (y div 4 - y div 100 + y div 400) = 146097 * a + 36524 * b + 1461 * c + 365 * e"
proof -
  have d4: "y div 4 = 100 * a + 25 * b + c"
    unfolding y_def by (rule int_div_pos_eq [where r = e]) (use assms(1-6) in simp_all)
  have d100: "y div 100 = 4 * a + b"
    unfolding y_def by (rule int_div_pos_eq [where r = "4 * c + e"]) (use assms(1-6) in simp_all)
  have d400: "y div 400 = a"
    unfolding y_def by (rule int_div_pos_eq [where r = "100 * b + 4 * c + e"]) (use assms(1-6) in simp_all)
  show ?thesis
    unfolding d4 d100 d400 unfolding y_def by simp
qed

lemma days_before_month_from_march:
  assumes "0 \<le> mp" "mp \<le> 9"
  shows "days_before_month y (mp + 3) = 59 + (if is_leap_year y then 1 else 0) + (153 * mp + 2) div 5"
proof -
  have "mp = 0 \<or> mp = 1 \<or> mp = 2 \<or> mp = 3 \<or> mp = 4 \<or> mp = 5 \<or> mp = 6 \<or> mp = 7 \<or> mp = 8 \<or> mp = 9"
    using assms by presburger
  then show ?thesis
    by (elim disjE) (simp_all add: days_before_month_def month_lengths_def)
qed

lemma days_before_month_jan_feb:
  assumes "10 \<le> mp" "mp \<le> 11"
  shows "days_before_month y (mp - 9) = (153 * mp + 2) div 5 - 306"
proof -
  have "mp = 10 \<or> mp = 11"
    using assms by presburger
  then show ?thesis
    by (elim disjE) (simp_all add: days_before_month_def month_lengths_def)
qed

lemma days_before_year_march:
  "days_before_year y + 59 + (if is_leap_year y then 1 else 0)
     = 365 * y + (y div 4 - y div 100 + y div 400) - 719468"
proof -
  have "leap_years_before (y + 1) = y div 4 - y div 100 + y div 400"
    by (simp add: leap_years_before_def)
  then have "leap_years_before y + (if is_leap_year y then 1 else 0) = y div 4 - y div 100 + y div 400"
    unfolding leap_step by simp
  moreover have "leap_years_before 1970 = 477"
    by (simp add: leap_years_before_def)
  ultimately show ?thesis
    unfolding days_before_year_def by (simp split: if_splits)
qed

lemma days_before_next_year:
  "days_before_year (y + 1) = 365 * y + (y div 4 - y div 100 + y div 400) + 306 - 719468"
proof -
  have "leap_years_before (y + 1) = y div 4 - y div 100 + y div 400"
    by (simp add: leap_years_before_def)
  moreover have "leap_years_before 1970 = 477"
    by (simp add: leap_years_before_def)
  ultimately show ?thesis
    unfolding days_before_year_def by simp
qed

lemma civil_roundtrip:
  fixes days :: int
  defines "z \<equiv> days + 719468"
  defines "n400 \<equiv> z div 146097"
  defines "r \<equiv> z mod 146097"
  defines "n100 \<equiv> min 3 (r div 36524)"
  defines "r2 \<equiv> r - n100 * 36524"
  defines "n4 \<equiv> r2 div 1461"
  defines "r3 \<equiv> r2 mod 1461"
  defines "n1 \<equiv> min 3 (r3 div 365)"
  defines "doy \<equiv> r3 - n1 * 365"
  defines "y \<equiv> 400 * n400 + 100 * n100 + 4 * n4 + n1"
  defines "mp \<equiv> (5 * doy + 2) div 153"
  defines "d \<equiv> doy - (153 * mp + 2) div 5 + 1"
  defines "m \<equiv> (if mp < 10 then mp + 3 else mp - 9)"
  shows "days_before_year (if m \<le> 2 then y + 1 else y)
           + days_before_month (if m \<le> 2 then y + 1 else y) m + (d - 1) = days"
proof -
  define L where "L = y div 4 - y div 100 + y div 400"
  define C where "C = (153 * mp + 2) div 5"
  have r: "0 \<le> r" "r \<le> 146096"
    unfolding r_def by simp_all
  have cb: "0 \<le> n100 \<and> n100 \<le> 3 \<and> 0 \<le> n4 \<and> n4 \<le> 24 \<and> 0 \<le> n1 \<and> n1 \<le> 3 \<and> 0 \<le> doy \<and> doy \<le> 365"
    unfolding n100_def n4_def n1_def doy_def r3_def r2_def
    by (rule cycle_bounds [OF r])
  have mb: "0 \<le> mp \<and> mp \<le> 11"
    using month_bounds [of doy] cb unfolding mp_def by simp
  have z_eq: "z = 146097 * n400 + r"
    unfolding n400_def r_def by simp
  have r_eq: "r = 36524 * n100 + r2"
    unfolding r2_def by simp
  have r2_eq: "r2 = 1461 * n4 + r3"
    unfolding n4_def r3_def by simp
  have r3_eq: "r3 = 365 * n1 + doy"
    unfolding doy_def by simp
  have march: "365 * y + L = 146097 * n400 + 36524 * n100 + 1461 * n4 + 365 * n1"
    unfolding L_def y_def by (rule march_year_days) (use cb in simp_all)
  have zdoy: "365 * y + L + doy = z"
    using march z_eq r_eq r2_eq r3_eq by linarith
  have doy_eq: "doy = C + (d - 1)"
    unfolding d_def C_def by simp
  show ?thesis
  proof (cases "mp < 10")
    case True
    then have m: "m = mp + 3" "\<not> m \<le> 2"
      using mb unfolding m_def by simp_all
    have a: "days_before_month y (mp + 3) = 59 + (if is_leap_year y then 1 else 0) + C"
      unfolding C_def by (rule days_before_month_from_march) (use mb True in simp_all)
    have b: "days_before_year y + 59 + (if is_leap_year y then 1 else 0) = 365 * y + L - 719468"
      unfolding L_def by (rule days_before_year_march)
    have "days_before_year y + days_before_month y (mp + 3) + (d - 1) = days"
      using a b zdoy doy_eq unfolding z_def by linarith
    then show ?thesis
      using m by simp
  next
    case False
    then have m: "m = mp - 9" "m \<le> 2"
      using mb unfolding m_def by simp_all
    have a: "days_before_month (y + 1) (mp - 9) = C - 306"
      unfolding C_def by (rule days_before_month_jan_feb) (use mb False in simp_all)
    have b: "days_before_year (y + 1) = 365 * y + L + 306 - 719468"
      unfolding L_def by (rule days_before_next_year)
    have "days_before_year (y + 1) + days_before_month (y + 1) (mp - 9) + (d - 1) = days"
      using a b zdoy doy_eq unfolding z_def by linarith
    then show ?thesis
      using m by simp
  qed
qed

lemma civil_from_days_roundtrip:
  assumes "civil_from_days days = (y, m, d)"
  shows "days_before_year y + days_before_month y m + (d - 1) = days"
  using assms unfolding civil_from_days_def Let_def prod.inject
  by (elim conjE, hypsubst) (rule civil_roundtrip)

lemma digit_value_digit_char: "digit_value (digit_char n) = n mod 10"
proof -
  have small: "k = 0 \<or> k = 1 \<or> k = 2 \<or> k = 3 \<or> k = 4 \<or> k = 5 \<or> k = 6 \<or> k = 7 \<or> k = 8 \<or> k = 9"
    if "k < 10" for k :: nat
    using that by arith
  have "n mod 10 < 10" by simp
  then have "n mod 10 = 0 \<or> n mod 10 = 1 \<or> n mod 10 = 2 \<or> n mod 10 = 3 \<or> n mod 10 = 4
      \<or> n mod 10 = 5 \<or> n mod 10 = 6 \<or> n mod 10 = 7 \<or> n mod 10 = 8 \<or> n mod 10 = 9"
    by (rule small)
  then show ?thesis
    unfolding digit_char_def digit_value_def by (elim disjE) simp_all
qed

lemma decimal_value_snoc:
  "decimal_value (cs @ [c]) = 10 * decimal_value cs + digit_value c"
  by (simp add: decimal_value_def)

lemma decimal_value_zero: "decimal_value (CHR ''0'' # cs) = decimal_value cs"
  by (simp add: decimal_value_def digit_value_def)

lemma decimal_value_dec: "decimal_value (dec n) = n"
proof (induction n rule: dec.induct)
  case (1 n)
  show ?case
  proof (cases "n < 10")
    case True
    then have "dec n = [] @ [digit_char n]"
      by (subst dec.simps) simp
    then show ?thesis
      using True by (simp only: decimal_value_snoc digit_value_digit_char) (simp add: decimal_value_def)
  next
    case False
    then have "dec n = dec (n div 10) @ [digit_char (n mod 10)]"
      by (subst dec.simps) simp
    then show ?thesis
      using False "1.IH" by (simp add: decimal_value_snoc digit_value_digit_char)
  qed
qed

lemma decimal_value_dec_int: "0 \<le> i \<Longrightarrow> int (decimal_value (dec_int i)) = i"
  by (simp add: dec_int_def decimal_value_dec)

lemma decimal_value_pad2: "0 \<le> i \<Longrightarrow> int (decimal_value (pad2 i)) = i"
  by (simp add: pad2_def decimal_value_zero decimal_value_dec_int)

lemma timestamp_parts:
  assumes "length Y = 4" "length Mo = 2" "length D = 2" "length H = 2" "length Mi = 2" "length S = 2"
  defines "ts \<equiv> Y @ CHR ''-'' # Mo @ CHR ''-'' # D @ CHR ''T'' # H @ CHR '':'' # Mi @ CHR '':'' # S @ CHR ''Z'' # []"
  shows "take 4 ts = Y \<and> take 2 (drop 5 ts) = Mo \<and> take 2 (drop 8 ts) = D
       \<and> take 2 (drop 11 ts) = H \<and> take 2 (drop 14 ts) = Mi \<and> take 2 (drop 17 ts) = S"
  using assms(1-6) unfolding ts_def by simp

lemma gmtime_utc_seconds:
  assumes "gmtime now = Some t"
  shows "utc_seconds (tm_year t + 1900) (tm_mon t + 1) (tm_mday t) (tm_hour t) (tm_min t) (tm_sec t)
           = now"
proof -
  define rem where "rem = now mod 86400"
  define days where "days = now div 86400"
  have range: "0 \<le> now" "now \<le> 32535215999"
    using assms by (simp_all add: gmtime_def MAX_TIME64_T_def split: if_splits)
  obtain y m d where c: "civil_from_days days = (y, m, d)"
    by (cases "civil_from_days days")
  have t: "t = \<lparr>tm_sec = rem mod 60, tm_min = rem mod 3600 div 60, tm_hour = rem div 3600,
                tm_mday = d, tm_mon = m - 1, tm_year = y - 1900\<rparr>"
    using assms range c unfolding rem_def days_def
    by (simp add: gmtime_def MAX_TIME64_T_def Let_def)
  have a: "days_before_year y + days_before_month y m + (d - 1) = days"
    by (rule civil_from_days_roundtrip [OF c])
  have b: "rem div 3600 * 3600 + rem mod 3600 div 60 * 60 + rem mod 60 = rem"
    by (rule seconds_of_day)
  have n: "days * 86400 + rem = now"
    unfolding days_def rem_def by (rule div_mult_mod_eq)
  have "utc_seconds y m d (rem div 3600) (rem mod 3600 div 60) (rem mod 60) = days * 86400 + rem"
    unfolding utc_seconds_def a using b by linarith
  then show ?thesis
    unfolding n by (simp add: t)
qed

lemma gmtime_timestamp_instant:
  assumes "gmtime now = Some t"
  shows "timestamp_instant (put_time t ''%Y-%m-%dT%H:%M:%SZ'') = Some now"
proof -
  note f = gmtime_fields [OF assms]
  have len: "length (dec_int (tm_year t + 1900)) = 4" "length (pad2 (tm_mon t + 1)) = 2"
    "length (pad2 (tm_mday t)) = 2" "length (pad2 (tm_hour t)) = 2"
    "length (pad2 (tm_min t)) = 2" "length (pad2 (tm_sec t)) = 2"
    using year_format [of "tm_year t + 1900"] pad2_format [of "tm_mon t + 1"]
      pad2_format [of "tm_mday t"] pad2_format [of "tm_hour t"] pad2_format [of "tm_min t"]
      pad2_format [of "tm_sec t"] f
    by simp_all
  have val: "int (decimal_value (dec_int (tm_year t + 1900))) = tm_year t + 1900"
    "int (decimal_value (pad2 (tm_mon t + 1))) = tm_mon t + 1"
    "int (decimal_value (pad2 (tm_mday t))) = tm_mday t"
    "int (decimal_value (pad2 (tm_hour t))) = tm_hour t"
    "int (decimal_value (pad2 (tm_min t))) = tm_min t"
    "int (decimal_value (pad2 (tm_sec t))) = tm_sec t"
    using f by (simp_all add: decimal_value_dec_int decimal_value_pad2)
  have m: "matches timestamp_pattern (put_time t ''%Y-%m-%dT%H:%M:%SZ'')"
    by (rule gmtime_timestamp_matches [OF assms])
  note p = timestamp_parts [OF len, folded put_time_fields]
  show ?thesis
    unfolding timestamp_instant_def using m p
    by (simp only: if_True val gmtime_utc_seconds [OF assms])
qed

section \<open>Examples of the clock\<close>

lemma gmtime_example:
  "gmtime 1700000000 =
     Some \<lparr>tm_sec = 20, tm_min = 13, tm_hour = 22, tm_mday = 14, tm_mon = 10, tm_year = 123\<rparr>"
  by code_simp

lemma put_time_example:
  "put_time \<lparr>tm_sec = 20, tm_min = 13, tm_hour = 22, tm_mday = 14, tm_mon = 10, tm_year = 123\<rparr>
     ''%Y-%m-%dT%H:%M:%SZ'' = ''2023-11-14T22:13:20Z''"
  by code_simp

section \<open>Delivery to the host\<close>

lemma notificationObj_fields:
  "notificationObj appName title body t =
     JSObject [(''appName'', JSString appName), (''title'', JSString title),
               (''body'', JSString body),
               (''timestamp'', JSString (put_time t ''%Y-%m-%dT%H:%M:%SZ''))]"
  by (simp add: notificationObj_def Object_New_def String_New_def)

lemma OnNotificationReceived_Inr:
  "OnNotificationReceived this now appName title body w = Inr w' \<Longrightarrow>
   \<exists>m cb t. heap w this = Some m \<and> callback_ref m = Some cb \<and> gmtime now = Some t
     \<and> w' = w\<lparr>host_calls := host_calls w @ [(cb, [notificationObj appName title body t])]\<rparr>"
  by (auto simp add: OnNotificationReceived_def split: option.splits)

lemma OnNotificationReceived_delivers:
  "heap w this = Some m \<Longrightarrow> callback_ref m = Some cb \<Longrightarrow> gmtime now = Some t \<Longrightarrow>
   OnNotificationReceived this now appName title body w
     = Inr (w\<lparr>host_calls := host_calls w @ [(cb, [notificationObj appName title body t])]\<rparr>)"
  by (simp add: OnNotificationReceived_def)

lemma set_isMonitoring_frame:
  "g_callback (set_isMonitoring this f w) = g_callback w"
  "g_monitorInstance (set_isMonitoring this f w) = g_monitorInstance w"
  "host_calls (set_isMonitoring this f w) = host_calls w"
  "map_option callback_ref (heap (set_isMonitoring this f w) p) = map_option callback_ref (heap w p)"
  by (simp_all add: set_isMonitoring_def split: option.splits)

lemma OnNotificationReceived_flag:
  "map_sum id host_calls (OnNotificationReceived this now appName title body (set_isMonitoring p f w))
     = map_sum id host_calls (OnNotificationReceived this now appName title body w)"
  by (cases "heap w p")
     (auto simp add: OnNotificationReceived_def set_isMonitoring_def split: option.splits)

lemma Notify_calls:
  "host_calls (step (Notify now appName title body) w) =
     (case g_callback w of
        None \<Rightarrow> host_calls w
      | Some this \<Rightarrow>
          (case heap w this of
             None \<Rightarrow> host_calls w
           | Some m \<Rightarrow>
               (case callback_ref m of
                  None \<Rightarrow> host_calls w
                | Some cb \<Rightarrow>
                    (case gmtime now of
                       None \<Rightarrow> host_calls w
                     | Some t \<Rightarrow> host_calls w @ [(cb, [notificationObj appName title body t])]))))"
  by (simp add: call_g_callback_def OnNotificationReceived_def split: option.splits)

lemma constructed_world:
  "snd (NotificationMonitor 0 (js_call [JSFunction 7]) init_world) = idle_world"
  by (simp add: NotificationMonitor_def js_call_def Length_def arg_at_def init_world_def
        idle_world_def Let_def)

lemma started_world: "snd (Start 0 info idle_world) = monitoring_world"
  unfolding Start_live [OF idle_world_instance] snd_conv
  by (simp add: idle_world_def monitoring_world_def)

lemma stopped_world: "snd (Stop 0 info monitoring_world) = idle_world"
  unfolding Stop_live [OF monitoring_world_instance] snd_conv
  by (simp add: idle_world_def monitoring_world_def)

lemma run_to_idle_world:
  "step (CallStop 0 []) (step (CallStart 0 []) (step (New 0 [JSFunction 7]) init_world)) = idle_world"
  unfolding step.simps constructed_world started_world stopped_world by (rule refl)

lemma example_payload:
  "notificationObj ''Mail'' ''Hi'' ''x'' \<lparr>tm_sec = 20, tm_min = 13, tm_hour = 22, tm_mday = 14, tm_mon = 10, tm_year = 123\<rparr> = JSObject [(''appName'', JSString ''Mail''), (''title'', JSString ''Hi''), (''body'', JSString ''x''), (''timestamp'', JSString ''2023-11-14T22:13:20Z'')]"
  by (simp only: notificationObj_fields put_time_example)

lemma idle_world_delivers:
  "OnNotificationReceived 0 1700000000 ''Mail'' ''Hi'' ''x'' idle_world
     = Inr (idle_world\<lparr>host_calls := host_calls idle_world @
              [(7, [notificationObj ''Mail'' ''Hi'' ''x'' \<lparr>tm_sec = 20, tm_min = 13, tm_hour = 22, tm_mday = 14, tm_mon = 10, tm_year = 123\<rparr>])]\<rparr>)"
  by (rule OnNotificationReceived_delivers [OF idle_world_instance _ gmtime_example]) simp

text \<open>
  Claim C1, as amended. \<open>Stop\<close> leaves the monitoring flag false, but
  \<open>OnNotificationReceived\<close> does not read the flag: what reaches the host, or the reason
  nothing does, is the same whatever the flag is set to, and an event that arrives after
  \<open>Stop\<close> at an instance with a callback is handed to that callback.
\<close>

theorem delivery_ignores_monitoring_flag:
  "map_sum id host_calls
       (OnNotificationReceived this now appName title body (set_isMonitoring this f w))
     = map_sum id host_calls (OnNotificationReceived this now appName title body w)
   \<and> (heap w this = Some m \<and> callback_ref m = Some cb \<and> gmtime now = Some t \<longrightarrow>
        \<not> isMonitoring this (snd (Stop this info w))
        \<and> map_sum id host_calls
              (OnNotificationReceived this now appName title body (snd (Stop this info w)))
            = Inr (host_calls w @ [(cb, [notificationObj appName title body t])]))"
proof -
  have a: "map_sum id host_calls
       (OnNotificationReceived this now appName title body (set_isMonitoring this f w))
     = map_sum id host_calls (OnNotificationReceived this now appName title body w)"
    by (rule OnNotificationReceived_flag)
  have b: "\<not> isMonitoring this (snd (Stop this info w))"
    "map_sum id host_calls
         (OnNotificationReceived this now appName title body (snd (Stop this info w)))
       = Inr (host_calls w @ [(cb, [notificationObj appName title body t])])"
    if h: "heap w this = Some m" and c: "callback_ref m = Some cb" and g: "gmtime now = Some t"
  proof -
    have s: "heap (snd (Stop this info w)) this = Some (m\<lparr>isMonitoring_flag := False\<rparr>)"
      by (simp add: Stop_live [OF h])
    show "\<not> isMonitoring this (snd (Stop this info w))"
      by (simp add: isMonitoring_live [OF s])
    have "map_sum id host_calls
         (OnNotificationReceived this now appName title body (snd (Stop this info w)))
       = map_sum id host_calls (OnNotificationReceived this now appName title body w)"
      unfolding Stop_def snd_conv by (rule OnNotificationReceived_flag)
    then show "map_sum id host_calls
         (OnNotificationReceived this now appName title body (snd (Stop this info w)))
       = Inr (host_calls w @ [(cb, [notificationObj appName title body t])])"
      by (simp add: OnNotificationReceived_delivers [OF h c g])
  qed
  show ?thesis using a b by blast
qed

theorem delivery_ignores_monitoring_flag_witness:
  "heap monitoring_world 0 = Some \<lparr>callback_ref = Some 7, isMonitoring_flag = True\<rparr>
   \<and> callback_ref \<lparr>callback_ref = Some 7, isMonitoring_flag = True\<rparr> = Some 7
   \<and> gmtime 1700000000 = Some \<lparr>tm_sec = 20, tm_min = 13, tm_hour = 22, tm_mday = 14, tm_mon = 10, tm_year = 123\<rparr>
   \<and> \<not> isMonitoring 0 (snd (Stop 0 (js_call []) monitoring_world))
   \<and> map_sum id host_calls
         (OnNotificationReceived 0 1700000000 ''Mail'' ''Hi'' ''x'' (snd (Stop 0 (js_call []) monitoring_world)))
       = Inr (host_calls monitoring_world @
               [(7, [notificationObj ''Mail'' ''Hi'' ''x'' \<lparr>tm_sec = 20, tm_min = 13, tm_hour = 22, tm_mday = 14, tm_mon = 10, tm_year = 123\<rparr>])])"
proof -
  have h: "heap monitoring_world 0 = Some \<lparr>callback_ref = Some 7, isMonitoring_flag = True\<rparr>
      \<and> callback_ref \<lparr>callback_ref = Some 7, isMonitoring_flag = True\<rparr> = Some 7
      \<and> gmtime 1700000000 = Some \<lparr>tm_sec = 20, tm_min = 13, tm_hour = 22, tm_mday = 14, tm_mon = 10, tm_year = 123\<rparr>"
    by (simp add: monitoring_world_instance gmtime_example)
  show ?thesis
    using h delivery_ignores_monitoring_flag [where this = 0 and w = monitoring_world
        and m = "\<lparr>callback_ref = Some 7, isMonitoring_flag = True\<rparr>" and cb = 7 and now = 1700000000 and t = "\<lparr>tm_sec = 20, tm_min = 13, tm_hour = 22, tm_mday = 14, tm_mon = 10, tm_year = 123\<rparr>"
        and info = "js_call []" and appName = "''Mail''" and title = "''Hi''" and body = "''x''"]
    by blast
qed

text \<open>
  Claim C1, as the specification states it, fails: an instance is constructed, started
  and stopped, so that its monitoring flag is false and nothing has been delivered; the
  notification that arrives next is handed to the host callback.
\<close>

theorem event_after_Stop_reaches_host:
  "\<not> isMonitoring 0 (run [New 0 [JSFunction 7], CallStart 0 [], CallStop 0 []] init_world)
   \<and> host_calls (run [New 0 [JSFunction 7], CallStart 0 [], CallStop 0 []] init_world) = []
   \<and> host_calls (run [New 0 [JSFunction 7], CallStart 0 [], CallStop 0 [],
                        Notify 1700000000 ''Mail'' ''Hi'' ''x''] init_world)
       = [(7, [JSObject [(''appName'', JSString ''Mail''), (''title'', JSString ''Hi''), (''body'', JSString ''x''), (''timestamp'', JSString ''2023-11-14T22:13:20Z'')]])]"
proof -
  have r: "run [New 0 [JSFunction 7], CallStart 0 [], CallStop 0 []] init_world = idle_world"
    by (simp only: run.simps run_to_idle_world)
  have n: "run [New 0 [JSFunction 7], CallStart 0 [], CallStop 0 [], Notify 1700000000 ''Mail'' ''Hi'' ''x''] init_world
             = step (Notify 1700000000 ''Mail'' ''Hi'' ''x'') idle_world"
    by (simp only: run.simps run_to_idle_world)
  have c: "host_calls (step (Notify 1700000000 ''Mail'' ''Hi'' ''x'') idle_world) = [(7, [JSObject [(''appName'', JSString ''Mail''), (''title'', JSString ''Hi''), (''body'', JSString ''x''), (''timestamp'', JSString ''2023-11-14T22:13:20Z'')]])]"
    unfolding Notify_calls
    by (simp add: idle_world_def gmtime_example example_payload)
  have i: "\<not> isMonitoring 0 idle_world" "host_calls idle_world = []"
    by (simp_all add: idle_world_def isMonitoring_def)
  show ?thesis
    unfolding r n using c i by blast
qed

text \<open>
  Claim C2. Whenever \<open>OnNotificationReceived\<close> calls the host callback, it passes one
  argument, an object with exactly the properties \<open>appName\<close>, \<open>title\<close>, \<open>body\<close> and
  \<open>timestamp\<close>, each of them a string; the first three are the strings of the event.
\<close>

theorem payload_is_record_shaped:
  "OnNotificationReceived this now appName title body w = Inr w' \<Longrightarrow>
   \<exists>cb payload ts.
     host_calls w' = host_calls w @ [(cb, [payload])]
     \<and> record_shaped payload
     \<and> property payload ''appName'' = Some (JSString appName)
     \<and> property payload ''title'' = Some (JSString title)
     \<and> property payload ''body'' = Some (JSString body)
     \<and> property payload ''timestamp'' = Some (JSString ts)"
proof -
  assume "OnNotificationReceived this now appName title body w = Inr w'"
  then obtain cb t where
    w': "w' = w\<lparr>host_calls := host_calls w @ [(cb, [notificationObj appName title body t])]\<rparr>"
    using OnNotificationReceived_Inr by blast
  have "record_shaped (notificationObj appName title body t)"
    by (simp add: notificationObj_fields record_shaped_def)
  moreover have "property (notificationObj appName title body t) ''appName'' = Some (JSString appName)"
    "property (notificationObj appName title body t) ''title'' = Some (JSString title)"
    "property (notificationObj appName title body t) ''body'' = Some (JSString body)"
    "property (notificationObj appName title body t) ''timestamp''
       = Some (JSString (put_time t ''%Y-%m-%dT%H:%M:%SZ''))"
    by (simp_all add: notificationObj_fields property_def)
  moreover have "host_calls w' = host_calls w @ [(cb, [notificationObj appName title body t])]"
    by (simp add: w')
  ultimately show ?thesis by blast
qed

theorem payload_is_record_shaped_witness:
  "OnNotificationReceived 0 1700000000 ''Mail'' ''Hi'' ''x'' idle_world
     = Inr (idle_world\<lparr>host_calls := host_calls idle_world @
              [(7, [notificationObj ''Mail'' ''Hi'' ''x'' \<lparr>tm_sec = 20, tm_min = 13, tm_hour = 22, tm_mday = 14, tm_mon = 10, tm_year = 123\<rparr>])]\<rparr>)
   \<and> (\<exists>cb payload ts.
         host_calls (idle_world\<lparr>host_calls := host_calls idle_world @
              [(7, [notificationObj ''Mail'' ''Hi'' ''x'' \<lparr>tm_sec = 20, tm_min = 13, tm_hour = 22, tm_mday = 14, tm_mon = 10, tm_year = 123\<rparr>])]\<rparr>)
           = host_calls idle_world @ [(cb, [payload])]
         \<and> record_shaped payload
         \<and> property payload ''appName'' = Some (JSString ''Mail'')
         \<and> property payload ''title'' = Some (JSString ''Hi'')
         \<and> property payload ''body'' = Some (JSString ''x'')
         \<and> property payload ''timestamp'' = Some (JSString ts))"
  using idle_world_delivers payload_is_record_shaped [OF idle_world_delivers]
  by blast

text \<open>
  Claim C3. Whenever \<open>OnNotificationReceived\<close> calls the host callback, the timestamp of
  the payload is computed from the reading of the clock at that moment alone, by \<open>gmtime\<close>
  and \<open>put_time\<close>; the strings of the event have no part in it. It matches the pattern of
  four digits, two, two, \<open>T\<close>, two, two, two and \<open>Z\<close>, and read as a date and a time of
  day in UTC it names the very second that the clock showed. A payload is built only at
  clock readings that the C runtime converts, and it is there that the year has four
  digits.
\<close>

theorem timestamp_is_capture_time_in_format:
  "OnNotificationReceived this now appName title body w = Inr w' \<Longrightarrow>
   \<exists>cb payload t ts.
     host_calls w' = host_calls w @ [(cb, [payload])]
     \<and> property payload ''timestamp'' = Some (JSString ts)
     \<and> gmtime now = Some t \<and> ts = put_time t ''%Y-%m-%dT%H:%M:%SZ''
     \<and> matches timestamp_pattern ts
     \<and> timestamp_instant ts = Some now
     \<and> 0 \<le> now \<and> now \<le> MAX_TIME64_T"
proof -
  assume "OnNotificationReceived this now appName title body w = Inr w'"
  then obtain cb t where g: "gmtime now = Some t" and
    w': "w' = w\<lparr>host_calls := host_calls w @ [(cb, [notificationObj appName title body t])]\<rparr>"
    using OnNotificationReceived_Inr by blast
  have "property (notificationObj appName title body t) ''timestamp''
       = Some (JSString (put_time t ''%Y-%m-%dT%H:%M:%SZ''))"
    by (simp add: notificationObj_fields property_def)
  moreover have "matches timestamp_pattern (put_time t ''%Y-%m-%dT%H:%M:%SZ'')"
    by (rule gmtime_timestamp_matches [OF g])
  moreover have "timestamp_instant (put_time t ''%Y-%m-%dT%H:%M:%SZ'') = Some now"
    by (rule gmtime_timestamp_instant [OF g])
  moreover have "0 \<le> now \<and> now \<le> MAX_TIME64_T"
    using g by (simp add: gmtime_def split: if_splits)
  moreover have "host_calls w' = host_calls w @ [(cb, [notificationObj appName title body t])]"
    by (simp add: w')
  ultimately show ?thesis using g by blast
qed

theorem timestamp_is_capture_time_in_format_witness:
  "OnNotificationReceived 0 1700000000 ''Mail'' ''Hi'' ''x'' idle_world
     = Inr (idle_world\<lparr>host_calls := host_calls idle_world @
              [(7, [notificationObj ''Mail'' ''Hi'' ''x'' \<lparr>tm_sec = 20, tm_min = 13, tm_hour = 22, tm_mday = 14, tm_mon = 10, tm_year = 123\<rparr>])]\<rparr>)
   \<and> property (notificationObj ''Mail'' ''Hi'' ''x'' \<lparr>tm_sec = 20, tm_min = 13, tm_hour = 22, tm_mday = 14, tm_mon = 10, tm_year = 123\<rparr>) ''timestamp''
       = Some (JSString ''2023-11-14T22:13:20Z'')
   \<and> matches timestamp_pattern ''2023-11-14T22:13:20Z''
   \<and> timestamp_instant ''2023-11-14T22:13:20Z'' = Some 1700000000"
proof -
  obtain t ts where g: "gmtime 1700000000 = Some t"
    and ts: "ts = put_time t ''%Y-%m-%dT%H:%M:%SZ''"
    and m: "matches timestamp_pattern ts"
    and i: "timestamp_instant ts = Some 1700000000"
    using timestamp_is_capture_time_in_format [OF idle_world_delivers] by blast
  have t: "t = \<lparr>tm_sec = 20, tm_min = 13, tm_hour = 22, tm_mday = 14, tm_mon = 10, tm_year = 123\<rparr>"
    using g by (simp add: gmtime_example)
  have s: "ts = ''2023-11-14T22:13:20Z''"
    unfolding ts t by (rule put_time_example)
  have b: "property (notificationObj ''Mail'' ''Hi'' ''x'' \<lparr>tm_sec = 20, tm_min = 13, tm_hour = 22, tm_mday = 14, tm_mon = 10, tm_year = 123\<rparr>) ''timestamp''
       = Some (JSString ''2023-11-14T22:13:20Z'')"
    by (simp add: example_payload property_def)
  show ?thesis using idle_world_delivers b m i unfolding s by blast
qed

section \<open>The globals over a run\<close>

lemma IsFunction_hd:
  "(Length (js_call as) < 1 \<or> \<not> IsFunction (arg_at (js_call as) 0))
     = (\<not> (as \<noteq> [] \<and> IsFunction (hd as)))"
  unfolding no_callback_iff by (simp add: js_call_def)

lemma NotificationMonitor_globals:
  "g_callback (snd (NotificationMonitor this (js_call as) w))
     = (if as \<noteq> [] \<and> IsFunction (hd as) then Some this else g_callback w)"
  "g_monitorInstance (snd (NotificationMonitor this (js_call as) w))
     = (if as \<noteq> [] \<and> IsFunction (hd as) then Some this else g_monitorInstance w)"
  unfolding NotificationMonitor_def Let_def IsFunction_hd by simp_all

lemma call_g_callback_globals:
  "call_g_callback now appName title body w = Inr w' \<Longrightarrow>
   g_callback w' = g_callback w \<and> g_monitorInstance w' = g_monitorInstance w"
  by (auto simp add: call_g_callback_def split: option.splits dest!: OnNotificationReceived_Inr)

lemma step_g_callback:
  "g_callback (step x w) = last_constructed [x] (g_callback w)"
  by (cases x)
     (auto simp add: NotificationMonitor_globals Start_def Start_counting_def
        SetupMonitoring_def Stop_def destructor_cases set_isMonitoring_frame Let_def
        split: sum.splits dest: call_g_callback_globals)

lemma step_g_monitorInstance:
  "g_monitorInstance (step x w) = last_constructed [x] (g_monitorInstance w)"
  by (cases x)
     (auto simp add: NotificationMonitor_globals Start_def Start_counting_def
        SetupMonitoring_def Stop_def destructor_cases set_isMonitoring_frame Let_def
        split: sum.splits dest: call_g_callback_globals)

lemma last_constructed_Cons:
  "last_constructed (x # xs) l = last_constructed xs (last_constructed [x] l)"
  by (cases x) simp_all

lemma run_g_callback:
  "g_callback (run ops w) = last_constructed ops (g_callback w)"
proof (induction ops arbitrary: w)
  case Nil
  show ?case by simp
next
  case (Cons x xs)
  show ?case
    using Cons.IH [of "step x w"]
    by (simp add: step_g_callback last_constructed_Cons [of x xs])
qed

lemma run_g_monitorInstance:
  "g_monitorInstance (run ops w) = last_constructed ops (g_monitorInstance w)"
proof (induction ops arbitrary: w)
  case Nil
  show ?case by simp
next
  case (Cons x xs)
  show ?case
    using Cons.IH [of "step x w"]
    by (simp add: step_g_monitorInstance last_constructed_Cons [of x xs])
qed

text \<open>
  Claim C9. A successful construction stores the address of the new instance in both
  globals. After any run of the program from its initial state both globals hold the
  address of the last instance whose construction succeeded (also once that instance is
  destroyed). A notification then makes at most one host call, to the callback of the
  instance at that address, and no other instance has any part in it.
\<close>

theorem globals_hold_last_constructed:
  "(fst (NotificationMonitor this info w) = None \<longrightarrow>
      g_callback (snd (NotificationMonitor this info w)) = Some this
      \<and> g_monitorInstance (snd (NotificationMonitor this info w)) = Some this)
   \<and> g_callback (run ops init_world) = last_constructed ops None
   \<and> g_monitorInstance (run ops init_world) = last_constructed ops None
   \<and> (host_calls (step (Notify now appName title body) (run ops init_world))
          = host_calls (run ops init_world)
        \<or> (\<exists>p m cb payload.
              last_constructed ops None = Some p
              \<and> heap (run ops init_world) p = Some m \<and> callback_ref m = Some cb
              \<and> host_calls (step (Notify now appName title body) (run ops init_world))
                  = host_calls (run ops init_world) @ [(cb, [payload])]))
   \<and> (\<forall>q x. Some q \<noteq> last_constructed ops None \<longrightarrow>
         host_calls (step (Notify now appName title body)
                       ((run ops init_world)\<lparr>heap := (heap (run ops init_world))(q := x)\<rparr>))
           = host_calls (step (Notify now appName title body) (run ops init_world)))"
proof -
  have a: "fst (NotificationMonitor this info w) = None \<longrightarrow>
      g_callback (snd (NotificationMonitor this info w)) = Some this
      \<and> g_monitorInstance (snd (NotificationMonitor this info w)) = Some this"
    by (simp add: NotificationMonitor_def Let_def)
  have g: "g_callback (run ops init_world) = last_constructed ops None"
    using run_g_callback [of ops init_world] by (simp add: init_world_def)
  have i: "g_monitorInstance (run ops init_world) = last_constructed ops None"
    using run_g_monitorInstance [of ops init_world] by (simp add: init_world_def)
  have c: "host_calls (step (Notify now appName title body) (run ops init_world))
          = host_calls (run ops init_world)
        \<or> (\<exists>p m cb payload.
              last_constructed ops None = Some p
              \<and> heap (run ops init_world) p = Some m \<and> callback_ref m = Some cb
              \<and> host_calls (step (Notify now appName title body) (run ops init_world))
                  = host_calls (run ops init_world) @ [(cb, [payload])])"
    unfolding Notify_calls g by (simp split: option.splits)
  have d: "host_calls (step (Notify now appName title body)
                       ((run ops init_world)\<lparr>heap := (heap (run ops init_world))(q := x)\<rparr>))
           = host_calls (step (Notify now appName title body) (run ops init_world))"
    if "Some q \<noteq> last_constructed ops None" for q x
    using that unfolding Notify_calls by (auto simp add: g split: option.splits)
  show ?thesis using a g i c d by blast
qed

theorem globals_hold_last_constructed_witness:
  "fst (NotificationMonitor 1 (js_call [JSFunction 8]) idle_world) = None
   \<and> g_callback (snd (NotificationMonitor 1 (js_call [JSFunction 8]) idle_world)) = Some 1
   \<and> g_monitorInstance (snd (NotificationMonitor 1 (js_call [JSFunction 8]) idle_world)) = Some 1
   \<and> g_callback (run example_ops init_world) = Some 1
   \<and> g_monitorInstance (run example_ops init_world) = Some 1
   \<and> Some 2 \<noteq> last_constructed example_ops None
   \<and> host_calls (step (Notify 1700000000 ''Mail'' ''Hi'' ''x'')
                      ((run example_ops init_world)\<lparr>heap := (heap (run example_ops init_world))(2 := None)\<rparr>))
       = host_calls (step (Notify 1700000000 ''Mail'' ''Hi'' ''x'') (run example_ops init_world))"
proof -
  have c: "fst (NotificationMonitor 1 (js_call [JSFunction 8]) idle_world) = None"
    by (simp add: NotificationMonitor_def js_call_def Length_def arg_at_def)
  have l: "last_constructed example_ops None = Some 1"
    by (simp add: example_ops_def)
  have n: "Some (2::nat) \<noteq> Some 1"
    by simp
  show ?thesis
    using c n globals_hold_last_constructed [where this = 1 and info = "js_call [JSFunction 8]"
        and w = idle_world and ops = example_ops and now = 1700000000
        and appName = "''Mail''" and title = "''Hi''" and body = "''x''"]
    unfolding l by blast
qed

end
